theory Spec2Isabelle
  imports Complex_Main "HOL-Library.Char_ord" "HOL-Library.List_Lexorder"
begin

section \<open>Data frames of the notebook\<close>

text \<open>
  The notebook AmazonProductDataExploration.py is a sequence of Spark data frame
  queries. A data frame is modelled as the list of its rows (Spark fixes no row order;
  the list order is one admissible order), a nullable column value as an option with
  \<open>None\<close> for SQL NULL, and a query as a function on such lists.
\<close>

subsection \<open>Three-valued SQL conditions\<close>

text \<open>
  A comparison with NULL is NULL; a join or a filter keeps a row only where its
  condition is TRUE.
\<close>

fun sql_eq :: "'a option \<Rightarrow> 'a option \<Rightarrow> bool option" where
  "sql_eq (Some x) (Some y) = Some (x = y)"
| "sql_eq _ _ = None"

fun sql_and :: "bool option \<Rightarrow> bool option \<Rightarrow> bool option" where
  "sql_and (Some False) _ = Some False"
| "sql_and _ (Some False) = Some False"
| "sql_and (Some True) (Some True) = Some True"
| "sql_and _ _ = None"

definition sql_true :: "bool option \<Rightarrow> bool" where
  "sql_true c = (c = Some True)"

subsection \<open>Characters\<close>

text \<open>
  A text is a list of characters, a character a code point below 256.
\<close>

definition TAB :: char where "TAB = CHR 0x09"

definition LF :: char where "LF = CHR 0x0A"

definition VT :: char where "VT = CHR 0x0B"

definition FF :: char where "FF = CHR 0x0C"

definition CR :: char where "CR = CHR 0x0D"

definition NEL :: char where "NEL = CHR 0x85"

definition CRLF :: string where "CRLF = [CR, LF]"

definition QUOTE :: char where "QUOTE = CHR 0x22"

subsection \<open>Edge tables\<close>

text \<open>
  \<open>conn_schema\<close>: two nullable IntegerType columns, FromNodeId and ToNodeId. No
  arithmetic is done on node ids, so they are integers here; the loader below only
  produces values in the 32-bit range.
\<close>

type_synonym edge_row = "int option \<times> int option"

definition FromNodeId :: "edge_row \<Rightarrow> int option" where
  "FromNodeId e = fst e"

definition ToNodeId :: "edge_row \<Rightarrow> int option" where
  "ToNodeId e = snd e"

subsection \<open>Reading an edge file\<close>

text \<open>
  \<^verbatim>\<open>spark.read.format("csv").option("delimiter", "\t").option("comment", "#")
     .schema(conn_schema).load(file)\<close>
  No mode is set, so the reader is PERMISSIVE. It reads the file line by line (a line
  ends at LF, CR or CR LF), drops the lines that are blank after \<open>String.trim\<close> and the
  lines that start with the comment character, splits every other line at the
  delimiter, and converts the first two tokens to IntegerType. A token that is missing,
  empty (the null value) or no integer literal leaves NULL in its column; tokens
  beyond the second are dropped; the row is kept in every case.

  Outside the model: quoted fields (the texts considered hold no double quote) and
  the limit of 20480 columns per line. A field that is no integer literal nulls only
  its own column (Spark 3; before 3.0 it nulled the whole row, which was kept as
  well).
\<close>

fun until_eol :: "string \<Rightarrow> string \<times> string option" where
  "until_eol [] = ([], None)"
| "until_eol (c # s) =
     (if c = LF then ([], Some s)
      else if c = CR then ([], Some (if take 1 s = [LF] then drop 1 s else s))
      else (case until_eol s of (l, rest) \<Rightarrow> (c # l, rest)))"

lemma until_eol_shorter: "until_eol s = (l, Some rest) \<Longrightarrow> length rest < length s"
  by (induction s arbitrary: l) (auto split: if_splits prod.splits)

function text_lines :: "string \<Rightarrow> string list" where
  "text_lines s =
     (if s = [] then []
      else (case until_eol s of
              (l, None) \<Rightarrow> [l]
            | (l, Some rest) \<Rightarrow> l # text_lines rest))"
  by pat_completeness auto
termination
  by (relation "measure length") (auto dest: until_eol_shorter [OF sym])
declare text_lines.simps [simp del]

definition java_trim :: "string \<Rightarrow> string" where
  "java_trim s =
     rev (dropWhile (\<lambda>c. c \<le> CHR '' '') (rev (dropWhile (\<lambda>c. c \<le> CHR '' '') s)))"

definition filterCommentAndEmpty :: "string list \<Rightarrow> string list" where
  "filterCommentAndEmpty lines_in =
     filter (\<lambda>line. java_trim line \<noteq> [] \<and> take 1 line \<noteq> ''#'') lines_in"

text \<open>
  The tokenizer on a line without quotes: the fields between the delimiters.
\<close>

fun parseLine :: "string \<Rightarrow> string list" where
  "parseLine [] = [[]]"
| "parseLine (c # s) =
     (if c = TAB then [] # parseLine s
      else (case parseLine s of
              [] \<Rightarrow> [[c]]
            | t # ts \<Rightarrow> (c # t) # ts))"

text \<open>
  \<open>Integer.parseInt\<close>: an optional sign and at least one decimal digit, the value in
  the 32-bit range; \<open>None\<close> stands for its NumberFormatException.
\<close>

definition is_digit :: "char \<Rightarrow> bool" where
  "is_digit c = (CHR ''0'' \<le> c \<and> c \<le> CHR ''9'')"

definition digit_value :: "char \<Rightarrow> int" where
  "digit_value c = of_char c - 48"

definition parseInt :: "string \<Rightarrow> int option" where
  "parseInt s =
     (let negative = (take 1 s = ''-'');
          digits = (if take 1 s = ''-'' \<or> take 1 s = ''+'' then drop 1 s else s)
      in if digits = [] \<or> \<not> list_all is_digit digits then None
         else
           (let n = foldl (\<lambda>a c. 10 * a + digit_value c) 0 digits;
                v = (if negative then - n else n)
            in if - 2147483648 \<le> v \<and> v \<le> 2147483647 then Some v else None))"

text \<open>
  The conversion of the tokens of a line under \<open>conn_schema\<close>. \<open>getToken\<close> fails on a
  missing token, the converter returns NULL for the null value and fails on a text that
  is no integer; in PERMISSIVE mode each failure leaves NULL in the column.
\<close>

definition getToken :: "string list \<Rightarrow> nat \<Rightarrow> string option" where
  "getToken tokens i = (if i < length tokens then Some (tokens ! i) else None)"

definition IntegerType_converter :: "string option \<Rightarrow> int option" where
  "IntegerType_converter datum =
     (case datum of
        None \<Rightarrow> None
      | Some d \<Rightarrow> if d = [] then None else parseInt d)"

definition convert :: "string list \<Rightarrow> edge_row" where
  "convert tokens =
     (IntegerType_converter (getToken tokens 0), IntegerType_converter (getToken tokens 1))"

definition read_csv :: "string \<Rightarrow> edge_row list" where
  "read_csv file = map (\<lambda>line. convert (parseLine line)) (filterCommentAndEmpty (text_lines file))"

text \<open>
  The line written from a list of fields, and an edge file with a comment line, a line
  of one field, a line of three fields, a line with a non-integer field, a blank line
  and a well-formed line.
\<close>

fun tab_join :: "string list \<Rightarrow> string" where
  "tab_join [] = []"
| "tab_join [f] = f"
| "tab_join (f # g # fs) = f @ TAB # tab_join (g # fs)"

definition sample_edge_file :: string where
  "sample_edge_file =
     ''# FromNodeId'' @ [TAB] @ ''ToNodeId'' @ [LF] @
     ''7'' @ [LF] @
     ''1'' @ [TAB] @ ''2'' @ [TAB] @ ''9'' @ [LF] @
     ''x'' @ [TAB] @ ''5'' @ [LF] @
     [LF] @
     ''3'' @ [TAB] @ ''4'' @ [LF]"

subsection \<open>Q2: consistently bidirectional edges\<close>

text \<open>
  \<^verbatim>\<open>SELECT DISTINCT e1.FromNodeId, e1.ToNodeId FROM t e1 JOIN t e2
    ON e1.FromNodeId = e2.ToNodeId AND e1.ToNodeId = e2.FromNodeId\<close>
  The inner join is the list of the pairs of rows on which the condition is TRUE.
\<close>

definition swapped_join :: "edge_row list \<Rightarrow> (edge_row \<times> edge_row) list" where
  "swapped_join t =
     [(e1, e2). e1 \<leftarrow> t, e2 \<leftarrow> t,
        sql_true (sql_and (sql_eq (FromNodeId e1) (ToNodeId e2))
                          (sql_eq (ToNodeId e1) (FromNodeId e2)))]"

definition bidirectional_edges :: "edge_row list \<Rightarrow> edge_row list" where
  "bidirectional_edges t =
     remdups (map (\<lambda>(e1, e2). (FromNodeId e1, ToNodeId e1)) (swapped_join t))"

text \<open>
  \<open>DataFrame.intersect\<close> is SQL INTERSECT: the distinct rows of the left table that
  occur in the right table, NULLs comparing equal.
\<close>

definition intersect_df :: "'a list \<Rightarrow> 'a list \<Rightarrow> 'a list" where
  "intersect_df xs ys = remdups (filter (\<lambda>r. r \<in> set ys) xs)"

definition consistent_bidirectional_edges ::
  "edge_row list \<Rightarrow> edge_row list \<Rightarrow> edge_row list \<Rightarrow> edge_row list \<Rightarrow> edge_row list" where
  "consistent_bidirectional_edges early_march_df late_march_df may_df june_df =
     intersect_df
       (intersect_df
          (intersect_df (bidirectional_edges early_march_df)
                        (bidirectional_edges late_march_df))
          (bidirectional_edges may_df))
       (bidirectional_edges june_df)"

text \<open>
  The example of the specification: the pair (1, 2) is bidirectional in all four
  snapshots, the pair (3, 4) in the first three only.
\<close>

definition snapshot_full :: "edge_row list" where
  "snapshot_full = [(Some 1, Some 2), (Some 2, Some 1), (Some 3, Some 4), (Some 4, Some 3)]"

definition snapshot_one_way :: "edge_row list" where
  "snapshot_one_way = [(Some 1, Some 2), (Some 2, Some 1), (Some 3, Some 4)]"

section \<open>Regular expressions of the metadata parser\<close>

text \<open>
  The parser and Q1 call \<open>F.regexp_extract\<close> and \<open>F.split\<close>, which run
  \<open>java.util.regex\<close>. The patterns of the notebook are sequences of single character
  classes, each either unquantified or under \<open>*\<close>, \<open>+\<close> or \<open>*?\<close>, with capturing groups
  that are never quantified or nested. A pattern is therefore a flat list of items, and
  the matcher is the backtracking search of the Java engine on such a list: a greedy item
  takes as many characters as it can and gives them back one at a time, a reluctant item
  takes as few as it can.

  A character is a code point below 256. \<open>Space\<close> is \<open>\s\<close> (space, TAB, LF, VT, FF, CR),
  \<open>Digit\<close> is \<open>\d\<close>, \<open>Word\<close> is \<open>\w\<close>, \<open>Dot\<close> is \<open>.\<close> (every character but the line
  terminators LF, CR and NEL), \<open>AnyChar\<close> stands for the classes \<open>[\w\W]\<close> and \<open>[\s\S]\<close>.
\<close>

datatype cclass = Digit | Space | Word | Dot | AnyChar | Lit char

fun in_class :: "cclass \<Rightarrow> char \<Rightarrow> bool" where
  "in_class Digit c = (c \<in> set ''0123456789'')"
| "in_class Space c = (c \<in> set [CHR '' '', TAB, LF, VT, FF, CR])"
| "in_class Word c =
     (c \<in> set ''abcdefghijklmnopqrstuvwxyzABCDEFGHIJKLMNOPQRSTUVWXYZ_0123456789'')"
| "in_class Dot c = (c \<notin> set [LF, CR, NEL])"
| "in_class AnyChar c = True"
| "in_class (Lit d) c = (c = d)"

text \<open>
  \<open>Greedy k n\<close> is the class \<open>k\<close> repeated at least \<open>n\<close> times, as many times as possible
  (\<open>k*\<close> is \<open>Greedy k 0\<close>, \<open>k+\<close> is \<open>Greedy k 1\<close>); \<open>Lazy k n\<close> is the reluctant form;
  \<open>GOpen g\<close> and \<open>GClose g\<close> record where group \<open>g\<close> starts and ends.
\<close>

datatype item = One cclass | Greedy cclass nat | Lazy cclass nat | GOpen nat | GClose nat

type_synonym marks = "(nat \<times> nat) list"

text \<open>
  \<open>rmatch rx s p os cs\<close> matches the whole of \<open>rx\<close> at the start of \<open>s\<close>, which is the
  suffix of the subject at offset \<open>p\<close>; it returns the group starts, the group ends and the
  offset where the match ends. \<open>find_from\<close> is \<open>Matcher.find\<close>: the match at the leftmost
  offset where one exists.
\<close>

fun rmatch :: "item list \<Rightarrow> string \<Rightarrow> nat \<Rightarrow> marks \<Rightarrow> marks \<Rightarrow> (marks \<times> marks \<times> nat) option" where
  "rmatch [] s p os cs = Some (os, cs, p)"
| "rmatch (GOpen g # r) s p os cs = rmatch r s p ((g, p) # os) cs"
| "rmatch (GClose g # r) s p os cs = rmatch r s p os ((g, p) # cs)"
| "rmatch (One k # r) [] p os cs = None"
| "rmatch (One k # r) (c # s) p os cs =
     (if in_class k c then rmatch r s (Suc p) os cs else None)"
| "rmatch (Greedy k n # r) [] p os cs = (if n = 0 then rmatch r [] p os cs else None)"
| "rmatch (Greedy k n # r) (c # s) p os cs =
     (if in_class k c then
        (case rmatch (Greedy k (n - 1) # r) s (Suc p) os cs of
           Some m \<Rightarrow> Some m
         | None \<Rightarrow> if n = 0 then rmatch r (c # s) p os cs else None)
      else if n = 0 then rmatch r (c # s) p os cs else None)"
| "rmatch (Lazy k n # r) [] p os cs = (if n = 0 then rmatch r [] p os cs else None)"
| "rmatch (Lazy k n # r) (c # s) p os cs =
     (if n = 0 then
        (case rmatch r (c # s) p os cs of
           Some m \<Rightarrow> Some m
         | None \<Rightarrow> if in_class k c then rmatch (Lazy k 0 # r) s (Suc p) os cs else None)
      else if in_class k c then rmatch (Lazy k (n - 1) # r) s (Suc p) os cs else None)"

fun find_from :: "item list \<Rightarrow> string \<Rightarrow> nat \<Rightarrow> (nat \<times> marks \<times> marks \<times> nat) option" where
  "find_from rx [] p = (case rmatch rx [] p [] [] of Some m \<Rightarrow> Some (p, m) | None \<Rightarrow> None)"
| "find_from rx (c # s) p =
     (case rmatch rx (c # s) p [] [] of Some m \<Rightarrow> Some (p, m) | None \<Rightarrow> find_from rx s (Suc p))"

definition group_text :: "string \<Rightarrow> marks \<Rightarrow> marks \<Rightarrow> nat \<Rightarrow> string" where
  "group_text s os cs g =
     (case (map_of os g, map_of cs g) of
        (Some a, Some b) \<Rightarrow> take (b - a) (drop a s)
      | _ \<Rightarrow> [])"

text \<open>
  \<open>F.regexp_extract(col, pattern, idx)\<close>: the text of group \<open>idx\<close> of the first match, and the
  empty string when the pattern does not match.
\<close>

definition regexp_extract :: "string \<Rightarrow> item list \<Rightarrow> nat \<Rightarrow> string" where
  "regexp_extract s rx idx =
     (case find_from rx s 0 of
        None \<Rightarrow> []
      | Some (a, os, cs, b) \<Rightarrow> group_text s os cs idx)"

lemma rmatch_bounds:
  "rmatch rx s p os cs = Some (os', cs', e) \<Longrightarrow> p \<le> e \<and> e \<le> p + length s"
  by (induction rx s p os cs rule: rmatch.induct)
     (fastforce split: if_splits option.splits)+

lemma find_from_bounds:
  "find_from rx s p = Some (a, os, cs, b) \<Longrightarrow> p \<le> a \<and> a \<le> b \<and> b \<le> p + length s"
  by (induction rx s p rule: find_from.induct)
     (fastforce split: option.splits dest: rmatch_bounds)+

text \<open>
  \<open>F.split(col, pattern)\<close> is \<open>String.split(pattern, -1)\<close>: the pieces between the matches,
  trailing empty pieces kept; in particular the split of the empty string is the array
  that holds the empty string. The patterns of the notebook match no empty string; on
  an empty match the recursion stops.
\<close>

function split_rx :: "string \<Rightarrow> item list \<Rightarrow> string list" where
  "split_rx s rx =
     (case find_from rx s 0 of
        None \<Rightarrow> [s]
      | Some (a, os, cs, b) \<Rightarrow>
          if a < b then take a s # split_rx (drop b s) rx else [s])"
  by pat_completeness auto
termination
  by (relation "measure (\<lambda>(s, rx). length s)")
     (auto dest!: find_from_bounds [OF sym] find_from_bounds)
declare split_rx.simps [simp del]

definition lits :: "string \<Rightarrow> item list" where
  "lits s = map (\<lambda>c. One (Lit c)) s"

text \<open>
  The three patterns of the notebook: the id and ASIN pattern
  \<^verbatim>\<open>(\d+)\s*\nASIN:\s+(\w+)\s*\n\<close>, the composite pattern \<open>regex\<close> with its thirteen groups,
  and the pattern \<^verbatim>\<open>rating:\s+(\d+)\<close> of Q1.
\<close>

definition id_regex :: "item list" where
  "id_regex = [GOpen 1, Greedy Digit 1, GClose 1, Greedy Space 0, One (Lit LF)] @ lits ''ASIN:'' @
     [Greedy Space 1, GOpen 2, Greedy Word 1, GClose 2, Greedy Space 0, One (Lit LF)]"

definition regex :: "item list" where
  "regex =
     lits ''Id:'' @ [Greedy Space 0, GOpen 1, Greedy Digit 1, GClose 1, Greedy Space 0, One (Lit LF)] @
     lits ''ASIN:'' @ [Greedy Space 1, GOpen 2, Greedy Word 1, GClose 2, Greedy Space 0, One (Lit LF),
       Greedy Space 0] @
     lits ''title:'' @ [Greedy Space 0, GOpen 3, Greedy AnyChar 1, GClose 3, Greedy Space 0,
       One (Lit CR), One (Lit LF), Greedy Space 0] @
     lits ''group:'' @ [Greedy Space 1, GOpen 4, Greedy Dot 1, GClose 4, Greedy Space 0, One (Lit LF),
       Greedy Space 0] @
     lits ''salesrank:'' @ [Greedy Space 0, GOpen 5, Greedy (Lit CHR ''-'') 0, Greedy Digit 1, GClose 5,
       Greedy Space 0, One (Lit LF), Greedy Space 0] @
     lits ''similar:'' @ [Greedy Space 1, GOpen 6, Greedy Digit 1, GClose 6, Greedy Space 0,
       GOpen 7, Greedy Digit 0, Lazy Dot 0, GClose 7, Greedy Space 0, One (Lit LF), Greedy Space 0] @
     lits ''categories:'' @ [Greedy Space 0, GOpen 8, Greedy Digit 1, GClose 8, Greedy Space 0,
       One (Lit LF), Greedy Space 0, GOpen 9, Greedy AnyChar 0, GClose 9] @
     lits ''reviews:'' @ [Greedy Space 1] @ lits ''total:'' @ [Greedy Space 1, GOpen 10, Greedy Digit 1,
       GClose 10, Greedy Space 1] @
     lits ''downloaded:'' @ [Greedy Space 1, GOpen 11, Greedy Digit 1, GClose 11, Greedy Space 1] @
     lits ''avg rating:'' @ [Greedy Space 1, GOpen 12, Greedy Digit 1, Greedy (Lit CHR ''.'') 0,
       Greedy Digit 0, GClose 12, Greedy Space 0, One (Lit LF), Greedy Space 0,
       GOpen 13, Greedy AnyChar 0, GClose 13]"

definition rating_regex :: "item list" where
  "rating_regex = lits ''rating:'' @ [Greedy Space 1, GOpen 1, Greedy Digit 1, GClose 1]"

section \<open>The metadata parser\<close>

text \<open>
  \<open>spark.read.text(meta_file_location, lineSep="\r\n\r\n")\<close>: the records of the file are
  the texts between the separators; a separator at the end of the file opens no further
  record, and the empty file has no record.
\<close>

fun until_sep :: "string \<Rightarrow> string \<Rightarrow> string \<times> string option" where
  "until_sep sep [] = ([], None)"
| "until_sep sep (c # s) =
     (if take (length sep) (c # s) = sep then ([], Some (drop (length sep) (c # s)))
      else (case until_sep sep s of (r, rest) \<Rightarrow> (c # r, rest)))"

lemma until_sep_shorter:
  "until_sep sep s = (r, Some rest) \<Longrightarrow> sep \<noteq> [] \<Longrightarrow> length rest < length s"
  by (induction s arbitrary: r) (auto split: if_splits prod.splits)

function read_text :: "string \<Rightarrow> string \<Rightarrow> string list" where
  "read_text lineSep s =
     (if s = [] \<or> lineSep = [] then []
      else (case until_sep lineSep s of
              (r, None) \<Rightarrow> [r]
            | (r, Some rest) \<Rightarrow> r # read_text lineSep rest))"
  by pat_completeness auto
termination
  by (relation "measure (\<lambda>(sep, s). length s)") (auto dest: until_sep_shorter [OF sym])
declare read_text.simps [simp del]

text \<open>
  A row of \<open>metadata_df\<close>. Every column is a string or an array of strings; \<open>id\<close>, \<open>value\<close>
  and \<open>group\<close> carry the suffix \<open>_col\<close>.
\<close>

record product =
  value_col :: string
  id_col :: string
  asin :: string
  title :: string
  group_col :: string
  salesrank :: string
  similar_count :: string
  similar :: "string list"
  categories_count :: string
  categories :: "string list"
  reviews_total :: string
  reviews_downloaded :: string
  reviews_avg_rating :: string
  reviews :: "string list"

text \<open>
  \<open>metadata_df\<close>: the chain of \<open>withColumn\<close> calls is \<open>parse_block\<close> on the record text, the
  final \<open>where\<close> keeps the rows with a non-empty id (\<open>regexp_extract\<close> returns no NULL).
\<close>

definition parse_block :: "string \<Rightarrow> product" where
  "parse_block v =
     \<lparr> value_col = v,
       id_col = regexp_extract v id_regex 1,
       asin = regexp_extract v id_regex 2,
       title = regexp_extract v regex 3,
       group_col = regexp_extract v regex 4,
       salesrank = regexp_extract v regex 5,
       similar_count = regexp_extract v regex 6,
       similar = split_rx (regexp_extract v regex 7) [Greedy Space 1],
       categories_count = regexp_extract v regex 8,
       categories = split_rx (regexp_extract v regex 9) (lits CRLF),
       reviews_total = regexp_extract v regex 10,
       reviews_downloaded = regexp_extract v regex 11,
       reviews_avg_rating = regexp_extract v regex 12,
       reviews = split_rx (regexp_extract v regex 13) (lits CRLF) \<rparr>"

definition metadata_df :: "string \<Rightarrow> product list" where
  "metadata_df meta_file =
     filter (\<lambda>r. id_col r \<noteq> [])
       (map parse_block (read_text (CRLF @ CRLF) meta_file))"

section \<open>Q1: rating percentages of a product\<close>

text \<open>
  \<open>collect()[0]\<close> raises IndexError on an empty result. A global aggregation has exactly
  one result row, so the error is a branch of the model that is never taken.
\<close>

datatype py_error = IndexError

definition collect_first :: "'a list \<Rightarrow> py_error + 'a" where
  "collect_first rows = (case rows of [] \<Rightarrow> Inl IndexError | r # _ \<Rightarrow> Inr r)"

text \<open>
  \<open>explode\<close> yields one row per array element. \<open>groupBy("rating").count()\<close> yields one row
  per distinct rating. \<open>agg(sum("count"))\<close> yields one row, which holds NULL when there is
  no input row.
\<close>

definition explode :: "'a list list \<Rightarrow> 'a list" where
  "explode arrays = concat arrays"

definition group_by_count :: "'a list \<Rightarrow> ('a \<times> nat) list" where
  "group_by_count ks = map (\<lambda>k. (k, count_list ks k)) (remdups ks)"

definition agg_sum :: "nat list \<Rightarrow> nat option list" where
  "agg_sum cs = [if cs = [] then None else Some (sum_list cs)]"

text \<open>
  \<open>F.col("count") / total_ratings * 100\<close> is computed in double precision: the count and the
  total are converted, divided, and the quotient is multiplied by 100. The rounding of
  each of these steps is the parameter \<open>fl\<close>; exact arithmetic is \<open>fl = (\<lambda>x. x)\<close>. A NULL
  total or a zero divisor gives NULL.
\<close>

definition percentage :: "(rat \<Rightarrow> rat) \<Rightarrow> nat \<Rightarrow> nat option \<Rightarrow> rat option" where
  "percentage fl c total_ratings =
     (case total_ratings of
        None \<Rightarrow> None
      | Some t \<Rightarrow>
          if fl (of_nat t) = 0 then None
          else Some (fl (fl (fl (of_nat c) / fl (of_nat t)) * 100)))"

text \<open>
  \<open>orderBy(F.col("rating").desc())\<close> on the string column \<open>rating\<close>.
\<close>

fun insert_desc :: "string \<times> 'a \<Rightarrow> (string \<times> 'a) list \<Rightarrow> (string \<times> 'a) list" where
  "insert_desc x [] = [x]"
| "insert_desc x (y # ys) = (if fst y \<le> fst x then x # y # ys else y # insert_desc x ys)"

definition order_by_desc :: "(string \<times> 'a) list \<Rightarrow> (string \<times> 'a) list" where
  "order_by_desc rows = foldr insert_desc rows []"

text \<open>
  The query of the notebook, with the product id (\<open>"21"\<close> there) as a parameter.
\<close>

definition rating_percentages_df ::
  "(rat \<Rightarrow> rat) \<Rightarrow> product list \<Rightarrow> string \<Rightarrow> py_error + (string \<times> nat \<times> rat option) list" where
  "rating_percentages_df fl node_metadata_df pid =
     (let product_21_df = filter (\<lambda>r. id_col r = pid) node_metadata_df;
          product_21_reviews_df =
            map (\<lambda>review. (review, regexp_extract review rating_regex 1))
              (explode (map reviews product_21_df));
          rating_counts_df = group_by_count (map snd product_21_reviews_df)
      in case collect_first (agg_sum (map snd rating_counts_df)) of
           Inl e \<Rightarrow> Inl e
         | Inr total_ratings \<Rightarrow>
             Inr (order_by_desc
                    (map (\<lambda>(rating, count). (rating, count, percentage fl count total_ratings))
                       rating_counts_df)))"

section \<open>Sample metadata files\<close>

text \<open>
  A product with two reviews, a product whose review list is empty, the header of the
  data file followed by a discontinued product, and two products under one id.
\<close>

definition reviewed_block :: string where
  "reviewed_block = ''Id: 21'' @ CRLF @ ''ASIN: A1'' @ CRLF @ '' title: T'' @ CRLF @
     '' group: Book'' @ CRLF @ '' salesrank: 7'' @ CRLF @
     '' similar: 1 B2'' @ CRLF @ '' categories: 1'' @ CRLF @ ''  |Books[1]'' @ CRLF @
     '' reviews: total: 2 downloaded: 2 avg rating: 4.5'' @ CRLF @
     ''  2000-7-28 cutomer: A rating: 5 votes: 1'' @ CRLF @
     ''  2000-7-29 cutomer: B rating: 4 votes: 2''"

definition reviewed_file :: string where
  "reviewed_file = reviewed_block @ CRLF @ CRLF"

definition zero_review_block :: string where
  "zero_review_block = ''Id:   22'' @ CRLF @ ''ASIN: 0486220125'' @ CRLF @
     ''  title: How the Other Half Lives'' @ CRLF @
     ''  group: Book'' @ CRLF @ ''  salesrank: 188784'' @ CRLF @
     ''  similar: 0'' @ CRLF @ ''  categories: 1'' @ CRLF @
     ''   |Books[283155]|Subjects[1000]'' @ CRLF @
     ''  reviews: total: 0  downloaded: 0  avg rating: 0''"

definition zero_review_file :: string where
  "zero_review_file = zero_review_block @ CRLF @ CRLF"

definition header_block :: string where
  "header_block = ''# Full information about Amazon Share the Love products'' @ CRLF @
     ''Total items: 548552''"

definition discontinued_block :: string where
  "discontinued_block = ''Id:   0'' @ CRLF @ ''ASIN: 0771044445'' @ CRLF @
     ''  discontinued product''"

definition discontinued_file :: string where
  "discontinued_file = header_block @ CRLF @ CRLF @ discontinued_block @ CRLF @ CRLF"

definition duplicate_id_file :: string where
  "duplicate_id_file = ''Id:   7'' @ CRLF @ ''ASIN: 0000000001'' @ CRLF @ ''  discontinued product'' @
     CRLF @ CRLF @ ''Id:   7'' @ CRLF @ ''ASIN: 0000000002'' @ CRLF @ ''  discontinued product'' @
     CRLF @ CRLF"

section \<open>Properties of the edge file reader\<close>

lemma until_eol_LF:
  "LF \<notin> set l \<Longrightarrow> CR \<notin> set l \<Longrightarrow> until_eol (l @ LF # rest) = (l, Some rest)"
  by (induction l) auto

lemma until_eol_CRLF:
  "LF \<notin> set l \<Longrightarrow> CR \<notin> set l \<Longrightarrow> until_eol (l @ CR # LF # rest) = (l, Some rest)"
  by (induction l) (auto simp: CR_def LF_def)

lemma until_eol_eol:
  assumes "LF \<notin> set l" and "CR \<notin> set l" and "eol = [LF] \<or> eol = [CR, LF]"
  shows "until_eol (l @ eol @ rest) = (l, Some rest)"
  using assms until_eol_LF until_eol_CRLF by auto

lemma text_lines_terminated:
  assumes "\<forall>l \<in> set ls. LF \<notin> set l \<and> CR \<notin> set l" and "eol = [LF] \<or> eol = [CR, LF]"
  shows "text_lines (concat (map (\<lambda>l. l @ eol) ls)) = ls"
  using assms(1)
proof (induction ls)
  case Nil
  show ?case by (simp add: text_lines.simps)
next
  case (Cons l ls)
  have ne: "l @ eol @ concat (map (\<lambda>l. l @ eol) ls) \<noteq> []"
    using assms(2) by auto
  have "text_lines (l @ eol @ concat (map (\<lambda>l. l @ eol) ls)) =
        l # text_lines (concat (map (\<lambda>l. l @ eol) ls))"
    by (subst text_lines.simps) (use Cons.prems assms(2) ne in \<open>simp add: until_eol_eol\<close>)
  then show ?case using Cons by simp
qed

lemma parseLine_single: "TAB \<notin> set f \<Longrightarrow> parseLine f = [f]"
  by (induction f) auto

lemma parseLine_field: "TAB \<notin> set f \<Longrightarrow> parseLine (f @ TAB # s) = f # parseLine s"
  by (induction f) auto

lemma parseLine_tab_join:
  "fs \<noteq> [] \<Longrightarrow> \<forall>f \<in> set fs. TAB \<notin> set f \<Longrightarrow> parseLine (tab_join fs) = fs"
  by (induction fs rule: tab_join.induct) (simp_all add: parseLine_single parseLine_field)

lemma set_tab_join: "set (tab_join fs) \<subseteq> \<Union> (set ` set fs) \<union> {TAB}"
  by (induction fs rule: tab_join.induct) auto

lemma tab_join_no_eol:
  assumes "\<forall>f \<in> set fs. c \<notin> set f" and "c \<noteq> TAB"
  shows "c \<notin> set (tab_join fs)"
  using assms set_tab_join [of fs] by auto

text \<open>
  The sample file has one well-formed line and yields four rows: the comment line and
  the blank line give none, each malformed line gives one.
\<close>

theorem malformed_lines_kept:
  "read_csv sample_edge_file =
     [(Some 7, None), (Some 1, Some 2), (None, Some 5), (Some 3, Some 4)]"
  by code_simp

text \<open>
  Claim C4, amended. Let an edge file be written from a table of lines, each line a
  non-empty list of fields free of TAB, LF, CR and double quotes, joined by TAB and ended
  by LF (or each by CR LF). Its rows are, in order, one row for each line that is not
  blank and does not start with \<open>#\<close>: the first two fields converted to integers,
  with NULL for a field that is missing, empty or no 32-bit integer literal, and with the
  fields after the second ignored. Comment lines are excluded; malformed lines are not.
\<close>

theorem read_csv_rows:
  assumes fields: "\<forall>fs \<in> set table. fs \<noteq> [] \<and>
             (\<forall>f \<in> set fs. TAB \<notin> set f \<and> LF \<notin> set f \<and> CR \<notin> set f \<and> QUOTE \<notin> set f)"
    and eol: "eol = [LF] \<or> eol = [CR, LF]"
  shows "read_csv (concat (map (\<lambda>fs. tab_join fs @ eol) table)) =
           map (\<lambda>fs. (IntegerType_converter (getToken fs 0), IntegerType_converter (getToken fs 1)))
             (filter (\<lambda>fs. java_trim (tab_join fs) \<noteq> [] \<and> take 1 (tab_join fs) \<noteq> ''#'') table)"
proof -
  have lf: "LF \<noteq> TAB" and cr: "CR \<noteq> TAB" by (simp_all add: LF_def CR_def TAB_def)
  have "LF \<notin> set (tab_join fs) \<and> CR \<notin> set (tab_join fs)" if "fs \<in> set table" for fs
    using that fields lf cr by (intro conjI tab_join_no_eol) auto
  then have "\<forall>l \<in> set (map tab_join table). LF \<notin> set l \<and> CR \<notin> set l"
    by auto
  from text_lines_terminated [OF this eol]
  have lines: "text_lines (concat (map (\<lambda>fs. tab_join fs @ eol) table)) = map tab_join table"
    by (simp add: comp_def)
  have tok: "parseLine (tab_join fs) = fs" if "fs \<in> set table" for fs
    using that fields by (simp add: parseLine_tab_join)
  show ?thesis
    unfolding read_csv_def lines filterCommentAndEmpty_def filter_map map_map comp_def convert_def
    by (rule map_cong [OF refl]) (simp add: tok)
qed

theorem read_csv_rows_witness:
  "read_csv (concat (map (\<lambda>fs. tab_join fs @ [LF])
       [[''# FromNodeId'', ''ToNodeId''], [''7''], [''1'', ''2'', ''9''], [''3'', ''4'']])) =
     [(Some 7, None), (Some 1, Some 2), (Some 3, Some 4)]"
proof -
  have "\<forall>fs \<in> set [[''# FromNodeId'', ''ToNodeId''], [''7''], [''1'', ''2'', ''9''], [''3'', ''4'']].
          fs \<noteq> [] \<and>
          (\<forall>f \<in> set fs. TAB \<notin> set f \<and> LF \<notin> set f \<and> CR \<notin> set f \<and> QUOTE \<notin> set f)"
    by (simp add: TAB_def LF_def CR_def QUOTE_def)
  from read_csv_rows [OF this, of "[LF]"] show ?thesis
    by (simp add: java_trim_def TAB_def IntegerType_converter_def getToken_def parseInt_def
        is_digit_def digit_value_def)
qed

section \<open>Properties of Q2\<close>

lemma sql_and_true: "sql_and p q = Some True \<longleftrightarrow> p = Some True \<and> q = Some True"
  by (induction p q rule: sql_and.induct) auto

lemma sql_eq_true: "sql_eq a b = Some True \<longleftrightarrow> (\<exists>u. a = Some u \<and> b = Some u)"
  by (cases a; cases b) auto

lemma sql_true_swapped:
  "sql_true (sql_and (sql_eq a b) (sql_eq c d)) \<longleftrightarrow>
     (\<exists>u v. a = Some u \<and> b = Some u \<and> c = Some v \<and> d = Some v)"
  by (auto simp: sql_true_def sql_and_true sql_eq_true)

lemma set_swapped_join:
  "set (swapped_join t) =
     {(e1, e2). e1 \<in> set t \<and> e2 \<in> set t \<and>
        (\<exists>u v. e1 = (Some u, Some v) \<and> e2 = (Some v, Some u))}"
  by (auto simp: swapped_join_def sql_true_swapped FromNodeId_def ToNodeId_def)

lemma set_bidirectional_edges:
  "set (bidirectional_edges t) =
     {r. \<exists>u v. r = (Some u, Some v) \<and> (Some u, Some v) \<in> set t \<and> (Some v, Some u) \<in> set t}"
  by (auto simp: bidirectional_edges_def set_swapped_join FromNodeId_def ToNodeId_def image_iff)

lemma set_intersect_df: "set (intersect_df xs ys) = set xs \<inter> set ys"
  by (auto simp: intersect_df_def)

lemma distinct_intersect_df: "distinct (intersect_df xs ys)"
  by (simp add: intersect_df_def)

lemma set_consistent:
  "set (consistent_bidirectional_edges a b c d) =
     set (bidirectional_edges a) \<inter> set (bidirectional_edges b) \<inter>
     set (bidirectional_edges c) \<inter> set (bidirectional_edges d)"
  by (simp add: consistent_bidirectional_edges_def set_intersect_df)

text \<open>
  Claim C1. For every four edge tables, the rows of \<open>consistent_bidirectional_edges\<close> are
  exactly the pairs of node ids \<open>u\<close>, \<open>v\<close> for which each of the four snapshots holds both
  the edge from \<open>u\<close> to \<open>v\<close> and the edge from \<open>v\<close> to \<open>u\<close>; the result has no duplicate
  row. An unordered pair is thus reported by its rows \<open>(u, v)\<close> and \<open>(v, u)\<close>.
\<close>

theorem consistent_bidirectional_edges_exact:
  "set (consistent_bidirectional_edges s1 s2 s3 s4) =
     {r. \<exists>u v. r = (Some u, Some v) \<and>
        (Some u, Some v) \<in> set s1 \<and> (Some v, Some u) \<in> set s1 \<and>
        (Some u, Some v) \<in> set s2 \<and> (Some v, Some u) \<in> set s2 \<and>
        (Some u, Some v) \<in> set s3 \<and> (Some v, Some u) \<in> set s3 \<and>
        (Some u, Some v) \<in> set s4 \<and> (Some v, Some u) \<in> set s4}
   \<and> distinct (consistent_bidirectional_edges s1 s2 s3 s4)"
proof
  show "distinct (consistent_bidirectional_edges s1 s2 s3 s4)"
    by (simp add: consistent_bidirectional_edges_def distinct_intersect_df)
  show "set (consistent_bidirectional_edges s1 s2 s3 s4) =
     {r. \<exists>u v. r = (Some u, Some v) \<and>
        (Some u, Some v) \<in> set s1 \<and> (Some v, Some u) \<in> set s1 \<and>
        (Some u, Some v) \<in> set s2 \<and> (Some v, Some u) \<in> set s2 \<and>
        (Some u, Some v) \<in> set s3 \<and> (Some v, Some u) \<in> set s3 \<and>
        (Some u, Some v) \<in> set s4 \<and> (Some v, Some u) \<in> set s4}"
    unfolding set_consistent set_bidirectional_edges by blast
qed

theorem consistent_bidirectional_edges_example:
  "(Some 1, Some 2) \<in> set (consistent_bidirectional_edges
       snapshot_full snapshot_full snapshot_full snapshot_one_way) \<and>
   (Some 3, Some 4) \<notin> set (consistent_bidirectional_edges
       snapshot_full snapshot_full snapshot_full snapshot_one_way)"
  using consistent_bidirectional_edges_exact
          [of snapshot_full snapshot_full snapshot_full snapshot_one_way]
  by (simp add: snapshot_full_def snapshot_one_way_def)

text \<open>
  Claim C9. A self-loop on \<open>u\<close> that is present in all four snapshots yields the row
  \<open>(u, u)\<close>: the swapped join matches the self-loop with itself, and nothing requires the
  two endpoints to differ.
\<close>

theorem self_loop_consistent:
  assumes "(Some u, Some u) \<in> set s1" and "(Some u, Some u) \<in> set s2"
    and "(Some u, Some u) \<in> set s3" and "(Some u, Some u) \<in> set s4"
  shows "(Some u, Some u) \<in> set (consistent_bidirectional_edges s1 s2 s3 s4)"
  using assms unfolding set_consistent set_bidirectional_edges by blast

theorem self_loop_consistent_witness:
  "(Some 7, Some 7) \<in> set (consistent_bidirectional_edges
       [(Some 7, Some 7)] [(Some 7, Some 7), (Some 1, Some 2)]
       [(Some 3, None), (Some 7, Some 7)] [(Some 7, Some 7)])"
  by (rule self_loop_consistent) simp_all

text \<open>
  Claim C10. Read as directed rows, the result is symmetric: with a row \<open>(x, y)\<close> it
  holds the row \<open>(y, x)\<close>.
\<close>

theorem consistent_bidirectional_edges_symmetric:
  assumes "(x, y) \<in> set (consistent_bidirectional_edges s1 s2 s3 s4)"
  shows "(y, x) \<in> set (consistent_bidirectional_edges s1 s2 s3 s4)"
  using assms unfolding set_consistent set_bidirectional_edges by blast

theorem consistent_bidirectional_edges_symmetric_witness:
  "(Some 2, Some 1) \<in> set (consistent_bidirectional_edges
       snapshot_full snapshot_full snapshot_full snapshot_one_way)"
proof (rule consistent_bidirectional_edges_symmetric)
  show "(Some 1, Some 2) \<in> set (consistent_bidirectional_edges
       snapshot_full snapshot_full snapshot_full snapshot_one_way)"
    by (simp add: consistent_bidirectional_edges_def bidirectional_edges_def
        swapped_join_def intersect_df_def snapshot_full_def snapshot_one_way_def
        sql_true_def FromNodeId_def ToNodeId_def)
qed

section \<open>Properties of the metadata parser\<close>

lemma id_col_parse_block [simp]: "id_col (parse_block v) = regexp_extract v id_regex 1"
  by (simp add: parse_block_def)

lemma metadata_df_values:
  "map value_col (metadata_df meta_file) =
     filter (\<lambda>b. regexp_extract b id_regex 1 \<noteq> []) (read_text (CRLF @ CRLF) meta_file)"
  by (simp add: metadata_df_def filter_map comp_def parse_block_def)

lemma metadata_df_ids:
  "map id_col (metadata_df meta_file) =
     filter (\<lambda>i. i \<noteq> [])
       (map (\<lambda>b. regexp_extract b id_regex 1) (read_text (CRLF @ CRLF) meta_file))"
  by (simp add: metadata_df_def filter_map comp_def)

lemma metadata_df_parsed:
  "r \<in> set (metadata_df meta_file) \<Longrightarrow> r = parse_block (value_col r) \<and> id_col r \<noteq> []"
  by (auto simp: metadata_df_def parse_block_def)

lemma split_rx_not_Nil: "split_rx s rx \<noteq> []"
  by (subst split_rx.simps) (simp split: option.splits prod.splits)

lemma reviews_parse_block_not_Nil: "reviews (parse_block v) \<noteq> []"
  by (simp add: parse_block_def split_rx_not_Nil)

lemma split_empty_CRLF: "split_rx [] (lits CRLF) = [[]]"
  by code_simp

lemma split_empty_Space: "split_rx [] [Greedy Space 1] = [[]]"
  by code_simp

lemma parse_block_no_match:
  assumes "find_from regex v 0 = None"
  shows "title (parse_block v) = [] \<and> group_col (parse_block v) = [] \<and>
         salesrank (parse_block v) = [] \<and> similar_count (parse_block v) = [] \<and>
         similar (parse_block v) = [[]] \<and> categories_count (parse_block v) = [] \<and>
         categories (parse_block v) = [[]] \<and> reviews_total (parse_block v) = [] \<and>
         reviews_downloaded (parse_block v) = [] \<and> reviews_avg_rating (parse_block v) = [] \<and>
         reviews (parse_block v) = [[]]"
  using assms
  by (simp add: parse_block_def regexp_extract_def split_empty_CRLF split_empty_Space
      del: One_nat_def)

lemma reviewed_file_blocks: "read_text (CRLF @ CRLF) reviewed_file = [reviewed_block]"
  by code_simp

lemma reviewed_block_id: "regexp_extract reviewed_block id_regex 1 = ''21''"
  by code_simp

lemma reviewed_file_table: "metadata_df reviewed_file = [parse_block reviewed_block]"
  by (simp add: metadata_df_def reviewed_file_blocks reviewed_block_id del: One_nat_def)

lemma zero_review_file_blocks: "read_text (CRLF @ CRLF) zero_review_file = [zero_review_block]"
  by code_simp

lemma zero_review_block_no_match: "find_from regex zero_review_block 0 = None"
  by code_simp

lemma zero_review_block_id: "regexp_extract zero_review_block id_regex 1 = ''22''"
  by code_simp

lemma zero_review_block_reviews: "reviews (parse_block zero_review_block) = [[]]"
  by (simp add: parse_block_def regexp_extract_def zero_review_block_no_match split_empty_CRLF)

lemma zero_review_file_table: "metadata_df zero_review_file = [parse_block zero_review_block]"
  by (simp add: metadata_df_def zero_review_file_blocks zero_review_block_id del: One_nat_def)

lemma discontinued_file_blocks:
  "read_text (CRLF @ CRLF) discontinued_file = [header_block, discontinued_block]"
  by code_simp

lemma header_block_id: "regexp_extract header_block id_regex 1 = []"
  by code_simp

lemma discontinued_block_id: "regexp_extract discontinued_block id_regex 1 = ''0''"
  by code_simp

lemma discontinued_block_no_match: "find_from regex discontinued_block 0 = None"
  by code_simp

lemma discontinued_file_table: "metadata_df discontinued_file = [parse_block discontinued_block]"
  by (simp add: metadata_df_def discontinued_file_blocks header_block_id discontinued_block_id del: One_nat_def)

lemma duplicate_id_file_ids:
  "map (\<lambda>b. regexp_extract b id_regex 1) (read_text (CRLF @ CRLF) duplicate_id_file) =
     [''7'', ''7'']"
  by code_simp

text \<open>
  Claim C8. The records of \<open>metadata_df\<close> are, in order and one for one, the records of
  the file from which the id pattern extracts a non-empty id; all others are dropped.
  Each kept record is the parse of its text, and where the composite pattern does not
  match its text every column of that pattern has the empty-string default: the string
  columns are empty and the array columns are the split of the empty string.
\<close>

theorem metadata_df_one_record_per_block:
  "map value_col (metadata_df meta_file) =
     filter (\<lambda>b. regexp_extract b id_regex 1 \<noteq> []) (read_text (CRLF @ CRLF) meta_file) \<and>
   (\<forall>r \<in> set (metadata_df meta_file).
      r = parse_block (value_col r) \<and> id_col r = regexp_extract (value_col r) id_regex 1 \<and>
      id_col r \<noteq> [] \<and>
      (find_from regex (value_col r) 0 = None \<longrightarrow>
         title r = [] \<and> group_col r = [] \<and> salesrank r = [] \<and> similar_count r = [] \<and>
         similar r = [[]] \<and> categories_count r = [] \<and> categories r = [[]] \<and>
         reviews_total r = [] \<and> reviews_downloaded r = [] \<and> reviews_avg_rating r = [] \<and>
         reviews r = [[]]))"
proof (intro conjI ballI)
  show "map value_col (metadata_df meta_file) =
     filter (\<lambda>b. regexp_extract b id_regex 1 \<noteq> []) (read_text (CRLF @ CRLF) meta_file)"
    by (rule metadata_df_values)
next
  fix r assume r: "r \<in> set (metadata_df meta_file)"
  then show p: "r = parse_block (value_col r)" and "id_col r \<noteq> []"
    by (simp_all add: metadata_df_parsed)
  then show "id_col r = regexp_extract (value_col r) id_regex 1"
    by (metis id_col_parse_block)
  show "find_from regex (value_col r) 0 = None \<longrightarrow>
         title r = [] \<and> group_col r = [] \<and> salesrank r = [] \<and> similar_count r = [] \<and>
         similar r = [[]] \<and> categories_count r = [] \<and> categories r = [[]] \<and>
         reviews_total r = [] \<and> reviews_downloaded r = [] \<and> reviews_avg_rating r = [] \<and>
         reviews r = [[]]"
    using parse_block_no_match [of "value_col r"] p by metis
qed

theorem metadata_df_discontinued_product:
  "map value_col (metadata_df discontinued_file) = [discontinued_block] \<and>
   map id_col (metadata_df discontinued_file) = [''0''] \<and>
   map title (metadata_df discontinued_file) = [[]] \<and>
   map reviews (metadata_df discontinued_file) = [[[]]]"
proof -
  have v: "value_col (parse_block discontinued_block) = discontinued_block"
    by (simp add: parse_block_def)
  from metadata_df_one_record_per_block [of discontinued_file]
  show ?thesis
    unfolding discontinued_file_table discontinued_file_blocks
    by (simp add: v discontinued_block_no_match discontinued_block_id header_block_id del: One_nat_def)
qed

text \<open>
  Two records of one file with the same id are both kept.
\<close>

theorem duplicate_ids_kept: "\<not> distinct (map id_col (metadata_df duplicate_id_file))"
  by (simp add: metadata_df_ids duplicate_id_file_ids del: One_nat_def)

text \<open>
  Claim C6, amended. The ids of the records of \<open>metadata_df\<close> are the non-empty ids
  extracted from the records of the file, in order and with their repetitions: no two
  returned records share an id exactly when no two records of the file yield the same
  non-empty id.
\<close>

theorem metadata_df_ids_as_extracted:
  "map id_col (metadata_df meta_file) =
     filter (\<lambda>i. i \<noteq> [])
       (map (\<lambda>b. regexp_extract b id_regex 1) (read_text (CRLF @ CRLF) meta_file)) \<and>
   (distinct (map id_col (metadata_df meta_file)) \<longleftrightarrow>
      distinct (filter (\<lambda>i. i \<noteq> [])
        (map (\<lambda>b. regexp_extract b id_regex 1) (read_text (CRLF @ CRLF) meta_file))))"
  by (simp add: metadata_df_ids)

section \<open>Properties of Q1\<close>

lemma sum_count_remdups: "sum_list (map (count_list ks) (remdups ks)) = length ks"
proof -
  have "sum_list (map (count_list ks) (remdups ks)) = sum (count_list ks) (set (remdups ks))"
    by (rule sum_list_distinct_conv_sum_set) simp
  also have "\<dots> = length ks"
    by (simp add: sum_count_set)
  finally show ?thesis .
qed

lemma sum_group_by_count: "sum_list (map snd (group_by_count ks)) = length ks"
  by (simp add: group_by_count_def comp_def sum_count_remdups)

lemma group_by_count_Nil_iff: "group_by_count ks = [] \<longleftrightarrow> ks = []"
  by (cases ks) (auto simp: group_by_count_def)

lemma set_insert_desc: "set (insert_desc x ys) = insert x (set ys)"
  by (induction ys) auto

lemma set_order_by_desc: "set (order_by_desc rows) = set rows"
  by (induction rows) (auto simp: order_by_desc_def set_insert_desc)

lemma sum_insert_desc:
  "sum_list (map g (insert_desc x ys)) = (g x :: rat) + sum_list (map g ys)"
  by (induction ys) auto

lemma sum_order_by_desc:
  "sum_list (map g (order_by_desc rows)) = sum_list (map (g :: _ \<Rightarrow> rat) rows)"
  by (induction rows) (auto simp: order_by_desc_def sum_insert_desc)

lemma order_by_desc_Nil_iff: "order_by_desc rows = [] \<longleftrightarrow> rows = []"
  using set_order_by_desc[of rows] by (metis set_empty)

lemma rating_percentages_df_eq:
  fixes tbl pid
  defines "rs \<equiv> concat (map reviews (filter (\<lambda>r. id_col r = pid) tbl))"
  shows "rating_percentages_df fl tbl pid =
     Inr (order_by_desc
            (map (\<lambda>(rating, count).
                    (rating, count,
                     percentage fl count (if rs = [] then None else Some (length rs))))
               (group_by_count (map (\<lambda>review. regexp_extract review rating_regex 1) rs))))"
proof -
  let ?ks = "map (\<lambda>review. regexp_extract review rating_regex 1) rs"
  have ks: "map snd (map (\<lambda>review. (review, regexp_extract review rating_regex 1)) rs) = ?ks"
    by simp
  have total: "collect_first (agg_sum (map snd (group_by_count ?ks))) =
       Inr (if rs = [] then None else Some (length rs))"
    by (simp add: collect_first_def agg_sum_def sum_group_by_count group_by_count_Nil_iff)
  show ?thesis
    unfolding rating_percentages_df_def Let_def explode_def rs_def[symmetric] ks total
    by simp
qed

lemma fl_bounds:
  assumes "\<forall>x. \<bar>fl x - x\<bar> \<le> u * \<bar>x\<bar>" and "0 \<le> (x::rat)"
  shows "(1 - u) * x \<le> fl x" and "fl x \<le> (1 + u) * x"
proof -
  from assms have "\<bar>fl x - x\<bar> \<le> u * x" by (metis abs_of_nonneg)
  then show "(1 - u) * x \<le> fl x" and "fl x \<le> (1 + u) * x"
    by (simp_all add: algebra_simps abs_le_iff)
qed

lemma percentage_bounds:
  assumes R: "\<forall>x. \<bar>fl x - x\<bar> \<le> u * \<bar>x\<bar>" and u0: "0 \<le> u" and u1: "u < 1" and t: "0 < t"
  shows "\<exists>p. percentage fl c (Some t) = Some p \<and>
           100 * ((1 - u) ^ 3 / (1 + u)) * (of_nat c / of_nat t) \<le> p \<and>
           p \<le> 100 * ((1 + u) ^ 3 / (1 - u)) * (of_nat c / of_nat t)"
proof -
  define C :: rat where "C = of_nat c"
  define T :: rat where "T = of_nat t"
  define a where "a = 1 - u"
  define b where "b = 1 + u"
  have C0: "0 \<le> C" and T0: "0 < T" and a0: "0 < a" and b0: "0 < b"
    using u0 u1 t by (simp_all add: C_def T_def a_def b_def)
  have fc: "a * C \<le> fl C" "fl C \<le> b * C"
    using fl_bounds[OF R C0] by (simp_all add: a_def b_def)
  have fT: "a * T \<le> fl T" "fl T \<le> b * T"
    using fl_bounds[OF R less_imp_le[OF T0]] by (simp_all add: a_def b_def)
  have fT0: "0 < fl T" using fT(1) a0 T0 by (meson less_le_trans mult_pos_pos)
  have fc0: "0 \<le> fl C" using fc(1) a0 C0 by (meson order_trans mult_nonneg_nonneg less_imp_le)
  define q where "q = fl C / fl T"
  have q0: "0 \<le> q" using fc0 fT0 by (simp add: q_def)
  have q_up: "q \<le> (b * C) / (a * T)"
    unfolding q_def by (rule frac_le) (use fc fT fc0 a0 T0 in simp_all)
  have q_lo: "(a * C) / (b * T) \<le> q"
    unfolding q_def by (rule frac_le) (use fc fT fT0 fc0 a0 C0 in simp_all)
  have fq: "a * q \<le> fl q" "fl q \<le> b * q"
    using fl_bounds[OF R q0] by (simp_all add: a_def b_def)
  have fq0: "0 \<le> fl q" using fq(1) a0 q0 by (meson order_trans mult_nonneg_nonneg less_imp_le)
  define m where "m = fl q * 100"
  have m0: "0 \<le> m" using fq0 by (simp add: m_def)
  have fm: "a * m \<le> fl m" "fl m \<le> b * m"
    using fl_bounds[OF R m0] by (simp_all add: a_def b_def)
  have m_up: "m \<le> b * ((b * C) / (a * T)) * 100"
  proof -
    have "fl q \<le> b * ((b * C) / (a * T))"
      using fq(2) q_up b0 by (meson order_trans mult_left_mono less_imp_le)
    then have "fl q * 100 \<le> b * ((b * C) / (a * T)) * 100"
      by (intro mult_right_mono) simp_all
    then show ?thesis by (simp only: m_def)
  qed
  have m_lo: "a * ((a * C) / (b * T)) * 100 \<le> m"
  proof -
    have "a * ((a * C) / (b * T)) \<le> fl q"
      using fq(1) q_lo a0 by (meson order_trans mult_left_mono less_imp_le)
    then have "a * ((a * C) / (b * T)) * 100 \<le> fl q * 100"
      by (intro mult_right_mono) simp_all
    then show ?thesis by (simp only: m_def)
  qed
  have up: "fl m \<le> b * (b * ((b * C) / (a * T)) * 100)"
    using fm(2) m_up b0 by (meson order_trans mult_left_mono less_imp_le)
  have lo: "a * (a * ((a * C) / (b * T)) * 100) \<le> fl m"
    using fm(1) m_lo a0 by (meson order_trans mult_left_mono less_imp_le)
  have e1: "b * (b * ((b * C) / (a * T)) * 100) = 100 * (b ^ 3 / a) * (C / T)"
    by (simp add: power3_eq_cube)
  have e2: "a * (a * ((a * C) / (b * T)) * 100) = 100 * (a ^ 3 / b) * (C / T)"
    by (simp add: power3_eq_cube)
  have "percentage fl c (Some t) = Some (fl m)"
    using fT0 by (simp add: percentage_def m_def q_def C_def T_def)
  with up lo show ?thesis
    unfolding e1 e2 by (simp add: a_def b_def C_def T_def)
qed

lemma of_nat_sum_list_rat:
  "(\<Sum>x\<leftarrow>xs. (of_nat (f x) :: rat)) = of_nat (sum_list (map f xs))"
  by (induction xs) simp_all

lemma sum_shares:
  assumes "ks \<noteq> []"
  shows "(\<Sum>x\<leftarrow>group_by_count ks. K * (of_nat (snd x) / of_nat (length ks))) = (K :: rat)"
proof -
  have "(\<Sum>x\<leftarrow>group_by_count ks. K * (of_nat (snd x) / of_nat (length ks))) =
        (\<Sum>x\<leftarrow>group_by_count ks. (K / of_nat (length ks)) * of_nat (snd x))"
    by simp
  also have "\<dots> = (K / of_nat (length ks)) * (\<Sum>x\<leftarrow>group_by_count ks. of_nat (snd x))"
    by (rule sum_list_const_mult)
  also have "(\<Sum>x\<leftarrow>group_by_count ks. (of_nat (snd x) :: rat)) =
        of_nat (sum_list (map snd (group_by_count ks)))"
    by (simp add: of_nat_sum_list_rat)
  also have "\<dots> = of_nat (length ks)"
    by (simp add: sum_group_by_count)
  finally show ?thesis using assms by simp
qed

lemma rating_of_empty: "regexp_extract [] rating_regex 1 = []"
  by code_simp

text \<open>
  Claim C2. For a product id with at least one review, Q1 returns a non-empty table
  whose percentages are all present and sum to 100 up to rounding: if every rounding
  step has relative error at most \<open>u\<close> (\<open>u\<close> is \<open>2\<^sup>-\<^sup>5\<^sup>3\<close> for doubles), the sum lies between
  \<open>100 (1 - u)\<^sup>3 / (1 + u)\<close> and \<open>100 (1 + u)\<^sup>3 / (1 - u)\<close>. In exact arithmetic
  (\<open>fl = (\<lambda>x. x)\<close>, \<open>u = 0\<close>) both bounds are 100.
\<close>

theorem rating_percentages_sum:
  assumes R: "\<forall>x. \<bar>fl x - x\<bar> \<le> u * \<bar>x\<bar>" and u0: "0 \<le> u" and u1: "u < 1"
    and ex: "\<exists>r \<in> set node_metadata_df. id_col r = pid \<and> reviews r \<noteq> []"
  shows "\<exists>rows ps. rating_percentages_df fl node_metadata_df pid = Inr rows \<and> rows \<noteq> [] \<and>
           map (\<lambda>(rating, count, pct). pct) rows = map Some ps \<and>
           100 * ((1 - u) ^ 3 / (1 + u)) \<le> sum_list ps \<and>
           sum_list ps \<le> 100 * ((1 + u) ^ 3 / (1 - u))"
proof -
  define rs where "rs = concat (map reviews (filter (\<lambda>r. id_col r = pid) node_metadata_df))"
  define ks where "ks = map (\<lambda>review. regexp_extract review rating_regex 1) rs"
  define lo where "lo = 100 * ((1 - u) ^ 3 / (1 + u))"
  define hi where "hi = 100 * ((1 + u) ^ 3 / (1 - u))"
  define pc where "pc = (\<lambda>c. percentage fl c (Some (length ks)))"
  define rows0 where "rows0 = map (\<lambda>(rating, count). (rating, count, pc count)) (group_by_count ks)"
  define val :: "string \<times> nat \<times> rat option \<Rightarrow> rat" where "val = (\<lambda>(rating, count, pct). the pct)"
  from ex have rs: "rs \<noteq> []" by (auto simp: rs_def)
  then have ks: "ks \<noteq> []" and len: "length ks = length rs" by (simp_all add: ks_def)
  have res: "rating_percentages_df fl node_metadata_df pid = Inr (order_by_desc rows0)"
    unfolding rating_percentages_df_eq rs_def[symmetric] ks_def[symmetric] rows0_def pc_def len
    using rs by simp
  have pcb: "\<exists>p. pc c = Some p \<and> lo * (of_nat c / of_nat (length ks)) \<le> p \<and>
                 p \<le> hi * (of_nat c / of_nat (length ks))" for c
    unfolding pc_def lo_def hi_def
    by (rule percentage_bounds[OF R u0 u1]) (use ks in simp)
  have some: "\<exists>p. pct = Some p" if "(k, c, pct) \<in> set (order_by_desc rows0)" for k c pct
    using that pcb by (auto simp: set_order_by_desc rows0_def)
  have shape: "map (\<lambda>(rating, count, pct). pct) (order_by_desc rows0) =
               map Some (map val (order_by_desc rows0))"
    using some by (auto simp: val_def)
  have sum_eq: "sum_list (map val (order_by_desc rows0)) =
                (\<Sum>x\<leftarrow>group_by_count ks. the (pc (snd x)))"
    unfolding sum_order_by_desc rows0_def
    by (simp add: comp_def case_prod_beta val_def)
  have "(\<Sum>x\<leftarrow>group_by_count ks. lo * (of_nat (snd x) / of_nat (length ks))) \<le>
        (\<Sum>x\<leftarrow>group_by_count ks. the (pc (snd x)))"
    by (rule sum_list_mono) (metis pcb option.sel)
  then have lower: "lo \<le> sum_list (map val (order_by_desc rows0))"
    unfolding sum_eq using sum_shares[OF ks, of lo] by simp
  have "(\<Sum>x\<leftarrow>group_by_count ks. the (pc (snd x))) \<le>
        (\<Sum>x\<leftarrow>group_by_count ks. hi * (of_nat (snd x) / of_nat (length ks)))"
    by (rule sum_list_mono) (metis pcb option.sel)
  then have upper: "sum_list (map val (order_by_desc rows0)) \<le> hi"
    unfolding sum_eq using sum_shares[OF ks, of hi] by simp
  have ne: "order_by_desc rows0 \<noteq> []"
    using ks by (simp add: order_by_desc_Nil_iff rows0_def group_by_count_Nil_iff)
  show ?thesis
    using res ne shape lower upper unfolding lo_def hi_def by blast
qed

text \<open>
  In exact arithmetic, on the parsed sample product with two reviews, the sum is 100.
\<close>

theorem rating_percentages_sum_exact:
  "\<exists>rows ps. rating_percentages_df (\<lambda>x. x) (metadata_df reviewed_file) ''21'' = Inr rows \<and>
     rows \<noteq> [] \<and> map (\<lambda>(rating, count, pct). pct) rows = map Some ps \<and> sum_list ps = 100"
proof -
  have "\<exists>r \<in> set (metadata_df reviewed_file). id_col r = ''21'' \<and> reviews r \<noteq> []"
    by (simp add: reviewed_file_table reviewed_block_id reviews_parse_block_not_Nil del: One_nat_def)
  from rating_percentages_sum [of "\<lambda>x. x" 0 "metadata_df reviewed_file" "''21''", OF _ _ _ this]
  obtain rows ps where
    "rating_percentages_df (\<lambda>x. x) (metadata_df reviewed_file) ''21'' = Inr rows"
    "rows \<noteq> []" "map (\<lambda>(rating, count, pct). pct) rows = map Some ps"
    "100 \<le> sum_list ps" "sum_list ps \<le> 100"
    by auto
  then show ?thesis by (intro exI [of _ rows] exI [of _ ps]) simp
qed

text \<open>
  Claim C7. For a product id that is the id of no record of the table, Q1 returns the
  empty table and no error: the aggregation still has its one row, whose NULL total is
  never used.
\<close>

theorem rating_percentages_unknown_product:
  assumes "\<forall>r \<in> set node_metadata_df. id_col r \<noteq> pid"
  shows "rating_percentages_df fl node_metadata_df pid = Inr []"
proof -
  from assms have "filter (\<lambda>r. id_col r = pid) node_metadata_df = []"
    by (auto simp: filter_empty_conv)
  then show ?thesis
    by (simp add: rating_percentages_df_eq group_by_count_def order_by_desc_def)
qed

theorem rating_percentages_unknown_product_witness:
  "rating_percentages_df (\<lambda>x. x) (metadata_df zero_review_file) ''99'' = Inr []"
  by (rule rating_percentages_unknown_product) (simp add: zero_review_file_table zero_review_block_id del: One_nat_def)

text \<open>
  On the file whose only product has no review, Q1 does not return the empty table.
\<close>

theorem zero_reviews_histogram_not_empty:
  "rating_percentages_df (\<lambda>x. x) (metadata_df zero_review_file) ''22'' \<noteq> Inr []"
  by (simp add: rating_percentages_df_eq zero_review_file_table zero_review_block_id zero_review_block_reviews rating_of_empty
      group_by_count_def percentage_def order_by_desc_def del: One_nat_def)

text \<open>
  Claim C3, amended. When exactly one parsed record has the product id and its reviews
  text (group 13 of the composite pattern) is empty, Q1 returns exactly one group: the
  empty rating with count 1 and percentage 100 (for every rounding that keeps 1 and 100).
\<close>

theorem zero_reviews_single_group:
  assumes one: "filter (\<lambda>r. id_col r = pid) (metadata_df meta_file) = [r]"
    and none: "regexp_extract (value_col r) regex 13 = []"
    and fl: "fl 1 = 1" "fl 100 = 100"
  shows "rating_percentages_df fl (metadata_df meta_file) pid = Inr [([], 1, Some 100)]"
proof -
  have "r \<in> set (filter (\<lambda>r. id_col r = pid) (metadata_df meta_file))"
    by (simp only: one list.set_intros)
  then have "r \<in> set (metadata_df meta_file)" by simp
  then have "r = parse_block (value_col r)" by (simp add: metadata_df_parsed)
  then have "reviews r = split_rx (regexp_extract (value_col r) regex 13) (lits CRLF)"
    by (metis parse_block_def product.select_convs(14))
  then have rs: "reviews r = [[]]" by (simp add: none split_empty_CRLF)
  show ?thesis
    by (simp add: rating_percentages_df_eq one rs rating_of_empty group_by_count_def
        percentage_def order_by_desc_def fl del: One_nat_def)
qed

theorem zero_reviews_single_group_witness:
  "rating_percentages_df (\<lambda>x. x) (metadata_df zero_review_file) ''22'' = Inr [([], 1, Some 100)]"
proof (rule zero_reviews_single_group)
  show "filter (\<lambda>r. id_col r = ''22'') (metadata_df zero_review_file) =
          [parse_block zero_review_block]"
    by (simp add: zero_review_file_table zero_review_block_id del: One_nat_def)
  show "regexp_extract (value_col (parse_block zero_review_block)) regex 13 = []"
    by (simp add: parse_block_def regexp_extract_def zero_review_block_no_match)
qed simp_all

end
